theory Spec2Isabelle
  imports Complex_Main
begin

section \<open>The session lifecycle controller of \<^verbatim>\<open>frontend/src/App.tsx\<close>\<close>

text \<open>
  The component \<^verbatim>\<open>App\<close> keeps six React state values and two refs, registers five
  callbacks on the Daily call object it creates, and offers the intents \<^verbatim>\<open>connect\<close>,
  \<^verbatim>\<open>disconnect\<close> and \<^verbatim>\<open>toggleMute\<close>. The embedding runs on one event at a time, as the
  JavaScript event loop does: every callback, every user intent and every resumption of
  an \<^verbatim>\<open>async\<close> function after an \<^verbatim>\<open>await\<close> is one turn, a function from state to state.
\<close>

subsection \<open>JavaScript values\<close>

text \<open>
  The payload of an app-message is whatever the remote side sent: the cast
  \<^verbatim>\<open>event.data as { type: string; ... }\<close> checks nothing at run time. Values are therefore
  JSON-shaped values. An object is an association list, read with \<open>map_of\<close>: the first
  binding of a key is the field of that name.
\<close>

datatype jsval =
    JUndefined
  | JNull
  | JBool bool
  | JNum rat
  | JStr string
  | JArr "jsval list"
  | JObj "(string \<times> jsval) list"

text \<open>JavaScript truthiness, as used by \<^verbatim>\<open>if (v)\<close>, \<^verbatim>\<open>a && b\<close> and \<^verbatim>\<open>a || b\<close>.\<close>

fun truthy :: "jsval \<Rightarrow> bool" where
  "truthy JUndefined = False"
| "truthy JNull = False"
| "truthy (JBool b) = b"
| "truthy (JNum n) = (n \<noteq> 0)"
| "truthy (JStr s) = (s \<noteq> [])"
| "truthy (JArr xs) = True"
| "truthy (JObj kvs) = True"

datatype js_error = TypeError | DailyError

text \<open>
  Property read \<^verbatim>\<open>v.k\<close>: a TypeError on \<^verbatim>\<open>undefined\<close> and \<^verbatim>\<open>null\<close>, the field of an object,
  and \<^verbatim>\<open>undefined\<close> for a field an object lacks and for the properties read here
  (\<^verbatim>\<open>type\<close>, \<^verbatim>\<open>status\<close>, \<^verbatim>\<open>text\<close>, \<^verbatim>\<open>role\<close>, \<^verbatim>\<open>room_url\<close>, \<^verbatim>\<open>token\<close>) on booleans, numbers,
  strings and arrays.
\<close>

fun get_prop :: "jsval \<Rightarrow> string \<Rightarrow> js_error + jsval" where
  "get_prop JUndefined k = Inl TypeError"
| "get_prop JNull k = Inl TypeError"
| "get_prop (JObj kvs) k = Inr (case map_of kvs k of None \<Rightarrow> JUndefined | Some v \<Rightarrow> v)"
| "get_prop v k = Inr JUndefined"

definition js_bind :: "js_error + 'a \<Rightarrow> ('a \<Rightarrow> js_error + 'b) \<Rightarrow> js_error + 'b" where
  "js_bind r f = (case r of Inl e \<Rightarrow> Inl e | Inr v \<Rightarrow> f v)"

text \<open>\<^verbatim>\<open>a || b\<close>\<close>

definition js_or :: "jsval \<Rightarrow> jsval \<Rightarrow> jsval" where
  "js_or a b = (if truthy a then a else b)"

subsection \<open>Data model\<close>

text \<open>\<^verbatim>\<open>type ConnectionState = 'idle' | 'connecting' | 'connected' | 'error'\<close>\<close>

datatype ConnectionState = CS_idle | CS_connecting | CS_connected | CS_error

text \<open>\<^verbatim>\<open>type AgentState = 'listening' | 'thinking' | 'speaking' | 'idle'\<close>\<close>

datatype AgentState = AS_listening | AS_thinking | AS_speaking | AS_idle

text \<open>
  The transport objects the component holds. The Daily library is not part of the
  sources; a \<^verbatim>\<open>DailyCall\<close> is what the component can tell of it. The field \<open>localAudio\<close> is
  what \<^verbatim>\<open>localAudio()\<close> returns: \<open>None\<close> is \<^verbatim>\<open>null\<close>, the answer of a call object that knows
  no local participant, as it is until it has joined; the answer is the transport's to
  change. The field \<open>destroyed\<close> is set once \<^verbatim>\<open>destroy()\<close> has completed. An
  \<^verbatim>\<open>HTMLAudioElement\<close> is seen through \<^verbatim>\<open>pause()\<close>, \<^verbatim>\<open>play()\<close>, \<^verbatim>\<open>srcObject\<close> and \<^verbatim>\<open>autoplay\<close>. A
  \<^verbatim>\<open>MediaStream\<close> is the list of its tracks.
\<close>

record call_object =
  localAudio :: "bool option"
  destroyed :: bool

record media_track =
  track_id :: nat
  kind :: string

record daily_participant =
  local :: bool

record track_event =
  track :: "media_track option"
  participant :: "daily_participant option"

record audio_element =
  paused :: bool
  srcObject :: "media_track list option"
  autoplay :: bool

text \<open>
  Every call on the outside world is appended to a log, in program order. Call objects
  and audio elements are named by their index in the store that holds them.
\<close>

datatype effect =
    Fetch string
  | CreateCallObject nat
  | Join nat jsval jsval
  | Leave nat
  | Destroy nat
  | SetLocalAudio nat bool
  | AudioPause nat
  | AudioDetach nat
  | AudioNew nat
  | AudioPlay nat

text \<open>
  An invocation of \<^verbatim>\<open>connect\<close> that passed the guard is suspended at \<^verbatim>\<open>await fetch\<close>, then at
  \<^verbatim>\<open>await callObject.join\<close> (the local \<^verbatim>\<open>callObject\<close> is the index it carries), then over.
  An invocation of \<^verbatim>\<open>disconnect\<close> that found a call object is suspended at
  \<^verbatim>\<open>await leave()\<close>, then at \<^verbatim>\<open>await destroy()\<close> of the call object it carries.
\<close>

datatype connect_task = AwaitFetch | AwaitJoin nat | ConnectDone

datatype disconnect_task = AwaitLeave | AwaitDestroy nat | DisconnectDone | DisconnectFailed

record app =
  connectionState :: ConnectionState
  agentState :: AgentState
  isMuted :: bool
  transcript :: jsval
  transcriptRole :: jsval
  selectedCharacter :: string
  callRef :: "nat option"
  audioRef :: "nat option"
  calls :: "call_object list"
  audios :: "audio_element list"
  effects :: "effect list"
  connects :: "connect_task list"
  disconnects :: "disconnect_task list"

text \<open>The \<^verbatim>\<open>useState\<close> and \<^verbatim>\<open>useRef\<close> initial values; nothing has been created or called.\<close>

definition init :: app where
  "init = \<lparr> connectionState = CS_idle, agentState = AS_idle, isMuted = False,
            transcript = JStr [], transcriptRole = JStr [], selectedCharacter = ''bugs'',
            callRef = None, audioRef = None, calls = [], audios = [], effects = [],
            connects = [], disconnects = [] \<rparr>"

subsection \<open>connect\<close>

text \<open>
  The synchronous part of \<^verbatim>\<open>connect\<close>: the guard, \<^verbatim>\<open>setConnectionState('connecting')\<close> and
  the call of \<^verbatim>\<open>fetch\<close> with the selected character. The callback is rebuilt whenever
  \<^verbatim>\<open>connectionState\<close> or \<^verbatim>\<open>selectedCharacter\<close> changes, so an intent reads the values of
  the current render.
\<close>

definition connect :: "app \<Rightarrow> app" where
  "connect s =
     (if connectionState s \<noteq> CS_idle \<and> connectionState s \<noteq> CS_error then s
      else s\<lparr> connectionState := CS_connecting,
               effects := effects s @ [Fetch (selectedCharacter s)],
               connects := connects s @ [AwaitFetch] \<rparr>)"

text \<open>
  What the provisioning request comes back with: the promise of \<^verbatim>\<open>fetch\<close> rejects, or it
  yields a response with its \<^verbatim>\<open>ok\<close> flag and the outcome of \<^verbatim>\<open>response.json()\<close>
  (\<open>None\<close> when that promise rejects). The function does nothing between the two awaits,
  so they are one turn here.
\<close>

datatype fetch_result = FetchRejected | Response bool "jsval option"

text \<open>The \<^verbatim>\<open>catch\<close> block of \<^verbatim>\<open>connect\<close>.\<close>

definition connect_catch :: "nat \<Rightarrow> app \<Rightarrow> app" where
  "connect_catch n s =
     s\<lparr> connectionState := CS_error, connects := (connects s)[n := ConnectDone] \<rparr>"

text \<open>
  \<^verbatim>\<open>Daily.createCallObject\<close>. The library allows one call object at a time: it throws
  while a call object made before has not been destroyed. Otherwise the result is a new
  call object, which has not joined and so knows no local participant.
\<close>

definition createCallObject :: "app \<Rightarrow> js_error + nat \<times> app" where
  "createCallObject s =
     (if list_all destroyed (calls s)
      then Inr (length (calls s),
                s\<lparr> calls := calls s @ [\<lparr> localAudio = None, destroyed = False \<rparr>],
                   effects := effects s @ [CreateCallObject (length (calls s))] \<rparr>)
      else Inl DailyError)"

text \<open>
  After \<^verbatim>\<open>createCallObject\<close> has returned \<open>c\<close>: \<^verbatim>\<open>callRef.current = callObject\<close>, the five
  \<^verbatim>\<open>callObject.on\<close> registrations and the call of \<^verbatim>\<open>callObject.join\<close>.
\<close>

definition register_and_join :: "nat \<Rightarrow> nat \<Rightarrow> jsval \<Rightarrow> jsval \<Rightarrow> app \<Rightarrow> app" where
  "register_and_join n c room_url token s =
     s\<lparr> callRef := Some c,
        effects := effects s @ [Join c room_url token],
        connects := (connects s)[n := AwaitJoin c] \<rparr>"

text \<open>The part of the \<^verbatim>\<open>try\<close> block from \<^verbatim>\<open>createCallObject\<close> on.\<close>

definition create_and_join :: "nat \<Rightarrow> jsval \<Rightarrow> jsval \<Rightarrow> app \<Rightarrow> app" where
  "create_and_join n room_url token s =
     (case createCallObject s of
        Inl e \<Rightarrow> connect_catch n s
      | Inr (c, s1) \<Rightarrow> register_and_join n c room_url token s1)"

definition fetch_resumed :: "nat \<Rightarrow> fetch_result \<Rightarrow> app \<Rightarrow> app" where
  "fetch_resumed n r s =
     (case r of
        FetchRejected \<Rightarrow> connect_catch n s
      | Response ok body \<Rightarrow>
          if \<not> ok then connect_catch n s
          else (case body of
                  None \<Rightarrow> connect_catch n s
                | Some b \<Rightarrow>
                    (case js_bind (get_prop b ''room_url'') (\<lambda>room_url.
                          js_bind (get_prop b ''token'') (\<lambda>token. Inr (room_url, token))) of
                       Inl e \<Rightarrow> connect_catch n s
                     | Inr (room_url, token) \<Rightarrow> create_and_join n room_url token s)))"

text \<open>The promise of \<^verbatim>\<open>join\<close> settles: the function ends, or the \<^verbatim>\<open>catch\<close> block runs.\<close>

definition join_resumed :: "nat \<Rightarrow> bool \<Rightarrow> app \<Rightarrow> app" where
  "join_resumed n resolved s =
     (if resolved then s\<lparr> connects := (connects s)[n := ConnectDone] \<rparr>
      else connect_catch n s)"

subsection \<open>The callbacks registered on the call object\<close>

definition on_joined_meeting :: "app \<Rightarrow> app" where
  "on_joined_meeting s = s\<lparr> connectionState := CS_connected, agentState := AS_idle \<rparr>"

definition on_left_meeting :: "app \<Rightarrow> app" where
  "on_left_meeting s =
     s\<lparr> connectionState := CS_idle, agentState := AS_idle,
        transcript := JStr [], transcriptRole := JStr [] \<rparr>"

definition on_error :: "app \<Rightarrow> app" where
  "on_error s = s\<lparr> connectionState := CS_error \<rparr>"

text \<open>
  \<^verbatim>\<open>event.track?.kind === 'audio' && event.participant && !event.participant.local\<close>
\<close>

definition remote_audio :: "track_event \<Rightarrow> bool" where
  "remote_audio ev =
     ((case track ev of None \<Rightarrow> False | Some t \<Rightarrow> kind t = ''audio'') \<and>
      (case participant ev of None \<Rightarrow> False | Some p \<Rightarrow> \<not> local p))"

text \<open>\<^verbatim>\<open>if (audioRef.current) { audioRef.current.pause(); audioRef.current.srcObject = null }\<close>\<close>

definition stop_audio :: "app \<Rightarrow> app" where
  "stop_audio s =
     (case audioRef s of
        None \<Rightarrow> s
      | Some a \<Rightarrow>
          s\<lparr> audios := (audios s)[a := (audios s ! a)\<lparr> paused := True, srcObject := None \<rparr>],
             effects := effects s @ [AudioPause a, AudioDetach a] \<rparr>)"

text \<open>
  The body of the \<^verbatim>\<open>track-started\<close> callback under its condition. \<^verbatim>\<open>play()\<close> clears the
  \<^verbatim>\<open>paused\<close> flag; a rejection of its promise is logged by the source and changes nothing
  the component holds.
\<close>

definition bind_audio :: "media_track \<Rightarrow> app \<Rightarrow> app" where
  "bind_audio t s =
     (let s1 = stop_audio s; a = length (audios s1) in
      s1\<lparr> audios := audios s1 @ [\<lparr> paused = False, srcObject = Some [t], autoplay = True \<rparr>],
          audioRef := Some a,
          effects := effects s1 @ [AudioNew a, AudioPlay a] \<rparr>)"

definition on_track_started :: "track_event \<Rightarrow> app \<Rightarrow> app" where
  "on_track_started ev s =
     (if remote_audio ev then (case track ev of None \<Rightarrow> s | Some t \<Rightarrow> bind_audio t s)
      else s)"

text \<open>The \<^verbatim>\<open>switch (data.status)\<close> of the app-message callback; \<^verbatim>\<open>case\<close> compares with \<^verbatim>\<open>===\<close>.\<close>

definition status_switch :: "jsval \<Rightarrow> AgentState" where
  "status_switch st =
     (if st = JStr ''listening'' \<or> st = JStr ''stt'' then AS_listening
      else if st = JStr ''llm'' then AS_thinking
      else if st = JStr ''tts'' then AS_speaking
      else AS_idle)"

text \<open>\<^verbatim>\<open>if (data.type === 'status') { switch ... }\<close>\<close>

definition status_part :: "jsval \<Rightarrow> app \<Rightarrow> js_error + app" where
  "status_part data s =
     js_bind (get_prop data ''type'') (\<lambda>ty.
       if ty = JStr ''status''
       then js_bind (get_prop data ''status'') (\<lambda>st. Inr (s\<lparr> agentState := status_switch st \<rparr>))
       else Inr s)"

text \<open>
  \<^verbatim>\<open>if (data.type === 'transcript' && data.text) { setTranscript(data.text);
  setTranscriptRole(data.role || 'assistant') }\<close>
\<close>

definition transcript_part :: "jsval \<Rightarrow> app \<Rightarrow> js_error + app" where
  "transcript_part data s =
     js_bind (get_prop data ''type'') (\<lambda>ty.
       if ty = JStr ''transcript''
       then js_bind (get_prop data ''text'') (\<lambda>tx.
              if truthy tx
              then js_bind (get_prop data ''role'') (\<lambda>r.
                     Inr (s\<lparr> transcript := tx, transcriptRole := js_or r (JStr ''assistant'') \<rparr>))
              else Inr s)
       else Inr s)"

text \<open>The app-message callback on \<^verbatim>\<open>event.data\<close>; \<open>Inl\<close> is an exception leaving the callback.\<close>

definition on_app_message :: "jsval \<Rightarrow> app \<Rightarrow> js_error + app" where
  "on_app_message data s =
     (if truthy data then js_bind (status_part data s) (transcript_part data) else Inr s)"

subsection \<open>disconnect\<close>

text \<open>The four setters at the end of \<^verbatim>\<open>disconnect\<close>.\<close>

definition reset_observables :: "app \<Rightarrow> app" where
  "reset_observables s =
     s\<lparr> connectionState := CS_idle, agentState := AS_idle,
        transcript := JStr [], transcriptRole := JStr [] \<rparr>"

text \<open>
  The first turn of \<^verbatim>\<open>disconnect\<close>: the audio element is stopped, detached and forgotten;
  with a call object, \<^verbatim>\<open>leave()\<close> is called and the function is suspended; without one,
  no \<^verbatim>\<open>await\<close> is reached and the setters run in the same turn.
\<close>

definition disconnect :: "app \<Rightarrow> app" where
  "disconnect s =
     (let s1 = (stop_audio s)\<lparr> audioRef := None \<rparr> in
      case callRef s1 of
        Some c \<Rightarrow> s1\<lparr> effects := effects s1 @ [Leave c],
                      disconnects := disconnects s1 @ [AwaitLeave] \<rparr>
      | None \<Rightarrow> reset_observables s1)"

text \<open>
  After \<^verbatim>\<open>await callRef.current.leave()\<close>: the promise rejected and the function ends there,
  or the ref is read again for \<^verbatim>\<open>callRef.current.destroy()\<close>, a TypeError when it has become
  null in the meantime.
\<close>

definition leave_resumed :: "nat \<Rightarrow> bool \<Rightarrow> app \<Rightarrow> app" where
  "leave_resumed n resolved s =
     (if \<not> resolved then s\<lparr> disconnects := (disconnects s)[n := DisconnectFailed] \<rparr>
      else (case callRef s of
              None \<Rightarrow> s\<lparr> disconnects := (disconnects s)[n := DisconnectFailed] \<rparr>
            | Some c \<Rightarrow> s\<lparr> effects := effects s @ [Destroy c],
                          disconnects := (disconnects s)[n := AwaitDestroy c] \<rparr>))"

text \<open>
  After \<^verbatim>\<open>await callRef.current.destroy()\<close>, called on the call object \<open>c\<close>: the promise
  rejected, or \<open>c\<close> is destroyed, and \<^verbatim>\<open>callRef.current = null\<close> and the setters follow.
\<close>

definition destroy_resumed :: "nat \<Rightarrow> nat \<Rightarrow> bool \<Rightarrow> app \<Rightarrow> app" where
  "destroy_resumed n c resolved s =
     (if \<not> resolved then s\<lparr> disconnects := (disconnects s)[n := DisconnectFailed] \<rparr>
      else reset_observables
             (s\<lparr> calls := (calls s)[c := (calls s ! c)\<lparr> destroyed := True \<rparr>],
                callRef := None,
                disconnects := (disconnects s)[n := DisconnectDone] \<rparr>))"

subsection \<open>toggleMute and the character buttons\<close>

text \<open>
  \<^verbatim>\<open>setLocalAudio(b)\<close> as \<^verbatim>\<open>localAudio()\<close> shows it afterwards: the new flag on a call object
  that knows its local participant, and \<^verbatim>\<open>null\<close> as before on one that does not.
\<close>

definition setLocalAudio :: "bool \<Rightarrow> call_object \<Rightarrow> call_object" where
  "setLocalAudio b call =
     (case localAudio call of None \<Rightarrow> call | Some b0 \<Rightarrow> call\<lparr> localAudio := Some b \<rparr>)"

text \<open>\<^verbatim>\<open>callRef.current.localAudio() === false\<close> is true of the answer \<^verbatim>\<open>false\<close> alone.\<close>

definition toggleMute :: "app \<Rightarrow> app" where
  "toggleMute s =
     (case callRef s of
        None \<Rightarrow> s
      | Some c \<Rightarrow>
          (let currentMuteState = (localAudio (calls s ! c) = Some False) in
           s\<lparr> calls := (calls s)[c := setLocalAudio currentMuteState (calls s ! c)],
              effects := effects s @ [SetLocalAudio c currentMuteState],
              isMuted := \<not> currentMuteState \<rparr>))"

text \<open>\<^verbatim>\<open>onClick={() => !isDisabled && setSelectedCharacter(char.id)}\<close>\<close>

definition select_character :: "string \<Rightarrow> app \<Rightarrow> app" where
  "select_character cid s =
     (if connectionState s = CS_connecting \<or> connectionState s = CS_connected then s
      else s\<lparr> selectedCharacter := cid \<rparr>)"

subsection \<open>The event loop\<close>

text \<open>
  One constructor per kind of turn. A resumption names the invocation it resumes and runs
  only when that invocation is suspended at the matching \<^verbatim>\<open>await\<close>. The five callbacks
  exist once a call object has been created, and every call object carries the same five.
  An exception leaving a callback would leave the state as it was. The cleanup of the
  effect hook, which runs when the component unmounts, is not among the turns.
  \<open>LocalAudioChanged c v\<close> is a turn of the transport alone: from then on \<^verbatim>\<open>localAudio()\<close> of
  the call object \<open>c\<close> returns \<open>v\<close>. That is how the answer changes out of band, and how
  the library forgets the local participant when a session has ended.
\<close>

datatype event =
    ConnectIntent
  | FetchSettled nat fetch_result
  | JoinSettled nat bool
  | JoinedMeeting
  | LeftMeeting
  | TransportError
  | TrackStarted track_event
  | AppMessage jsval
  | DisconnectIntent
  | LeaveSettled nat bool
  | DestroySettled nat bool
  | ToggleMute
  | SelectCharacter string
  | LocalAudioChanged nat "bool option"

definition awaiting_join :: "connect_task \<Rightarrow> bool" where
  "awaiting_join t = (case t of AwaitJoin c \<Rightarrow> True | _ \<Rightarrow> False)"

definition local_audio_changed :: "nat \<Rightarrow> bool option \<Rightarrow> app \<Rightarrow> app" where
  "local_audio_changed c v s =
     (if c < length (calls s)
      then s\<lparr> calls := (calls s)[c := (calls s ! c)\<lparr> localAudio := v \<rparr>] \<rparr>
      else s)"

text \<open>
  The joined event comes from the one call object that is not destroyed, the last one
  made. From the event on that call object knows its local participant, whose microphone
  is on (\<^verbatim>\<open>audioSource: true\<close>).
\<close>

definition transport_joins :: "app \<Rightarrow> app" where
  "transport_joins s =
     (let c = length (calls s) - 1 in
      if calls s \<noteq> [] \<and> \<not> destroyed (calls s ! c) \<and> localAudio (calls s ! c) = None
      then local_audio_changed c (Some True) s
      else s)"

fun step :: "event \<Rightarrow> app \<Rightarrow> app" where
  "step ConnectIntent s = connect s"
| "step (FetchSettled n r) s =
     (if n < length (connects s) \<and> connects s ! n = AwaitFetch then fetch_resumed n r s else s)"
| "step (JoinSettled n ok) s =
     (if n < length (connects s) \<and> awaiting_join (connects s ! n) then join_resumed n ok s
      else s)"
| "step JoinedMeeting s = (if calls s = [] then s else on_joined_meeting (transport_joins s))"
| "step LeftMeeting s = (if calls s = [] then s else on_left_meeting s)"
| "step TransportError s = (if calls s = [] then s else on_error s)"
| "step (TrackStarted ev) s = (if calls s = [] then s else on_track_started ev s)"
| "step (AppMessage data) s =
     (if calls s = [] then s
      else (case on_app_message data s of Inl e \<Rightarrow> s | Inr s' \<Rightarrow> s'))"
| "step DisconnectIntent s = disconnect s"
| "step (LeaveSettled n ok) s =
     (if n < length (disconnects s) \<and> disconnects s ! n = AwaitLeave then leave_resumed n ok s
      else s)"
| "step (DestroySettled n ok) s =
     (if n < length (disconnects s)
      then (case disconnects s ! n of AwaitDestroy c \<Rightarrow> destroy_resumed n c ok s | _ \<Rightarrow> s)
      else s)"
| "step ToggleMute s = toggleMute s"
| "step (SelectCharacter cid) s = select_character cid s"
| "step (LocalAudioChanged c v) s = local_audio_changed c v s"

text \<open>The events of a list, in order.\<close>

fun run :: "event list \<Rightarrow> app \<Rightarrow> app" where
  "run [] s = s"
| "run (e # es) s = run es (step e s)"

subsection \<open>What the transport can emit\<close>

text \<open>
  The callbacks above run on whatever event reaches them. Which events the transport
  emits is a matter of the library, and is assumed here as follows. Since one call
  object exists at a time, the transport is in one meeting state: none while every call
  object is destroyed, joining from \<^verbatim>\<open>join\<close> on, joined from the joined event on, left or
  error from such an event on. The joined event comes from a call object that is
  joining, an app-message from one that has joined, and the left and the error event
  from one that is not destroyed. Nothing is assumed of the other events.
\<close>

datatype meeting_state = MS_none | MS_joining | MS_joined | MS_left | MS_error

definition receivable :: "event \<Rightarrow> meeting_state \<Rightarrow> bool" where
  "receivable e m =
     (case e of
        JoinedMeeting \<Rightarrow> m = MS_joining
      | AppMessage data \<Rightarrow> m = MS_joined
      | LeftMeeting \<Rightarrow> m \<noteq> MS_none
      | TransportError \<Rightarrow> m \<noteq> MS_none
      | _ \<Rightarrow> True)"

text \<open>
  The meeting state after the event \<open>e\<close> has met the state \<open>s\<close>: a provisioning response
  that made a call object starts a join, and the end of a \<^verbatim>\<open>destroy()\<close> leaves no meeting
  when no call object is left.
\<close>

fun transport_after :: "event \<Rightarrow> app \<Rightarrow> meeting_state \<Rightarrow> meeting_state" where
  "transport_after (FetchSettled n r) s m =
     (if length (calls s) < length (calls (step (FetchSettled n r) s)) then MS_joining else m)"
| "transport_after JoinedMeeting s m = (if m = MS_joining then MS_joined else m)"
| "transport_after LeftMeeting s m = (if m = MS_none then m else MS_left)"
| "transport_after TransportError s m = (if m = MS_none then m else MS_error)"
| "transport_after (DestroySettled n ok) s m =
     (if list_all destroyed (calls (step (DestroySettled n ok) s)) then MS_none else m)"
| "transport_after e s m = m"

fun transport_run :: "event list \<Rightarrow> app \<Rightarrow> meeting_state \<Rightarrow> meeting_state" where
  "transport_run [] s m = m"
| "transport_run (e # es) s m = transport_run es (step e s) (transport_after e s m)"

text \<open>A list of events each of which the transport can emit where it stands.\<close>

fun receivable_run :: "event list \<Rightarrow> app \<Rightarrow> meeting_state \<Rightarrow> bool" where
  "receivable_run [] s m = True"
| "receivable_run (e # es) s m =
     (receivable e m \<and> receivable_run es (step e s) (transport_after e s m))"

text \<open>
  A transcript or a role is held only while the call object has joined or has met an
  error, and the meeting state is none when every call object is destroyed.
\<close>

definition transcript_inv :: "app \<Rightarrow> meeting_state \<Rightarrow> bool" where
  "transcript_inv s m =
     ((transcript s \<noteq> JStr [] \<or> transcriptRole s \<noteq> JStr [] \<longrightarrow>
         m = MS_joined \<or> m = MS_error) \<and>
      (list_all destroyed (calls s) \<longrightarrow> m = MS_none))"

subsection \<open>Observers\<close>

text \<open>The negation \<^verbatim>\<open>!v\<close> of what \<^verbatim>\<open>localAudio()\<close> returns: \<^verbatim>\<open>null\<close> is falsy.\<close>

definition js_not :: "bool option \<Rightarrow> bool" where
  "js_not v = (case v of None \<Rightarrow> True | Some b \<Rightarrow> \<not> b)"

text \<open>
  Invariant I1 of the specification: the agent is announced in a phase only while the
  session is connected.
\<close>

definition I1 :: "app \<Rightarrow> bool" where
  "I1 s = (agentState s \<noteq> AS_idle \<longrightarrow> connectionState s = CS_connected)"

text \<open>An event that takes the connection from connected to error.\<close>

definition error_exit :: "event \<Rightarrow> app \<Rightarrow> bool" where
  "error_exit e s = (connectionState s = CS_connected \<and> connectionState (step e s) = CS_error)"

text \<open>
  An event that is not such an exit and, when it is an app-message, is delivered while
  connected; and a list of events each of which is so in the state it meets.
\<close>

definition benign :: "event \<Rightarrow> app \<Rightarrow> bool" where
  "benign e s =
     (\<not> error_exit e s \<and>
      (case e of AppMessage data \<Rightarrow> connectionState s = CS_connected | _ \<Rightarrow> True))"

fun benign_run :: "event list \<Rightarrow> app \<Rightarrow> bool" where
  "benign_run [] s = True"
| "benign_run (e # es) s = (benign e s \<and> benign_run es (step e s))"

text \<open>The audio elements that are bound to a stream, by index.\<close>

definition alive_sinks :: "app \<Rightarrow> nat list" where
  "alive_sinks s = filter (\<lambda>i. srcObject (audios s ! i) \<noteq> None) [0..<length (audios s)]"

text \<open>
  Every audio element other than the one \<^verbatim>\<open>audioRef\<close> holds is detached, and \<^verbatim>\<open>audioRef\<close>
  holds an element that exists.
\<close>

definition sink_inv :: "app \<Rightarrow> bool" where
  "sink_inv s =
     ((\<forall>i < length (audios s). audioRef s \<noteq> Some i \<longrightarrow> srcObject (audios s ! i) = None) \<and>
      (\<forall>a. audioRef s = Some a \<longrightarrow> a < length (audios s)))"

subsection \<open>The decoder as the specification words it\<close>

text \<open>
  The specification describes the app-message callback as a decoder from a payload to
  zero or one typed event, which the controller then applies. The source has no such
  function; the two definitions below follow the specification's sentences, to be
  compared with \<open>on_app_message\<close>.
\<close>

datatype decoded = StatusEvent AgentState | TranscriptEvent jsval jsval

text \<open>\<open>listening|stt \<rightarrow> listening\<close>, \<open>llm \<rightarrow> thinking\<close>, \<open>tts \<rightarrow> speaking\<close>; anything else, or nothing, is idle.\<close>

definition fixed_lookup :: "jsval option \<Rightarrow> AgentState" where
  "fixed_lookup st =
     (case st of
        Some (JStr x) \<Rightarrow>
          if x = ''listening'' \<or> x = ''stt'' then AS_listening
          else if x = ''llm'' then AS_thinking
          else if x = ''tts'' then AS_speaking
          else AS_idle
      | _ \<Rightarrow> AS_idle)"

text \<open>
  Reference decoder: a transcript needs a non-empty string \<open>text\<close>; the role is
  \<open>assistant\<close> if omitted, and the role given otherwise.
\<close>

definition decoder_spec :: "jsval \<Rightarrow> decoded option" where
  "decoder_spec payload =
     (case payload of
        JObj kvs \<Rightarrow>
          (case map_of kvs ''type'' of
             Some (JStr ty) \<Rightarrow>
               if ty = ''status'' then Some (StatusEvent (fixed_lookup (map_of kvs ''status'')))
               else if ty = ''transcript'' then
                 (case map_of kvs ''text'' of
                    Some (JStr tx) \<Rightarrow>
                      if tx \<noteq> []
                      then Some (TranscriptEvent (JStr tx)
                                   (case map_of kvs ''role'' of
                                      None \<Rightarrow> JStr ''assistant'' | Some r \<Rightarrow> r))
                      else None
                  | _ \<Rightarrow> None)
               else None
           | _ \<Rightarrow> None)
      | _ \<Rightarrow> None)"

text \<open>
  The same decoder with the two tests the source makes: \<open>text\<close> is any truthy value, and
  the role is \<open>assistant\<close> unless the role given is truthy.
\<close>

definition decoder_truthy :: "jsval \<Rightarrow> decoded option" where
  "decoder_truthy payload =
     (case payload of
        JObj kvs \<Rightarrow>
          (case map_of kvs ''type'' of
             Some (JStr ty) \<Rightarrow>
               if ty = ''status'' then Some (StatusEvent (fixed_lookup (map_of kvs ''status'')))
               else if ty = ''transcript'' then
                 (case map_of kvs ''text'' of
                    Some tx \<Rightarrow>
                      if truthy tx
                      then Some (TranscriptEvent tx
                                   (case map_of kvs ''role'' of
                                      None \<Rightarrow> JStr ''assistant''
                                    | Some r \<Rightarrow> if truthy r then r else JStr ''assistant''))
                      else None
                  | None \<Rightarrow> None)
               else None
           | _ \<Rightarrow> None)
      | _ \<Rightarrow> None)"

text \<open>The controller applies an event: the last value wins.\<close>

definition deliver :: "decoded option \<Rightarrow> app \<Rightarrow> app" where
  "deliver d s =
     (case d of
        None \<Rightarrow> s
      | Some (StatusEvent a) \<Rightarrow> s\<lparr> agentState := a \<rparr>
      | Some (TranscriptEvent tx r) \<Rightarrow> s\<lparr> transcript := tx, transcriptRole := r \<rparr>)"

text \<open>
  Payloads on which the two decoders cannot differ: \<open>text\<close> is absent, a string or
  falsy, and \<open>role\<close> is absent or truthy.
\<close>

definition well_shaped :: "jsval \<Rightarrow> bool" where
  "well_shaped payload =
     (case payload of
        JObj kvs \<Rightarrow>
          (case map_of kvs ''text'' of
             None \<Rightarrow> True
           | Some tx \<Rightarrow> (case tx of JStr x \<Rightarrow> True | _ \<Rightarrow> \<not> truthy tx)) \<and>
          (case map_of kvs ''role'' of None \<Rightarrow> True | Some r \<Rightarrow> truthy r)
      | _ \<Rightarrow> True)"

subsection \<open>Sample inputs\<close>

text \<open>The provisioning response of Scenario A, and a remote audio track.\<close>

definition sample_body :: jsval where
  "sample_body = JObj [(''room_url'', JStr ''wss://x''), (''token'', JStr ''t1'')]"

definition remote_track :: "nat \<Rightarrow> track_event" where
  "remote_track i = \<lparr> track = Some \<lparr> track_id = i, kind = ''audio'' \<rparr>,
                      participant = Some \<lparr> local = False \<rparr> \<rparr>"

text \<open>Scenario A: connect, provisioning succeeds, the transport joins.\<close>

definition live_session :: "event list" where
  "live_session = [ConnectIntent, FetchSettled 0 (Response True (Some sample_body)),
                   JoinedMeeting, JoinSettled 0 True]"

definition status_msg :: "string \<Rightarrow> jsval" where
  "status_msg st = JObj [(''type'', JStr ''status''), (''status'', JStr st)]"

definition transcript_msg :: "jsval \<Rightarrow> jsval \<Rightarrow> jsval" where
  "transcript_msg tx r = JObj [(''type'', JStr ''transcript''), (''text'', tx), (''role'', r)]"

text \<open>
  Scenario F: the user hangs up while the provisioning request is in flight; the request
  then succeeds and the transport joins.
\<close>

definition hang_up_early :: "event list" where
  "hang_up_early = [ConnectIntent, DisconnectIntent,
                    FetchSettled 0 (Response True (Some sample_body)),
                    JoinedMeeting, JoinSettled 0 True]"

text \<open>
  The user hangs up while the first provisioning request is in flight and connects
  again; the first request succeeds, its session is live and the agent speaks; the
  second request fails.
\<close>

definition second_connect_fails :: "event list" where
  "second_connect_fails =
     [ConnectIntent, DisconnectIntent, ConnectIntent,
      FetchSettled 0 (Response True (Some sample_body)), JoinedMeeting, JoinSettled 0 True,
      AppMessage (status_msg ''tts''), FetchSettled 1 (Response False None)]"

text \<open>The join is in flight: the call object exists and has not joined.\<close>

definition join_in_flight :: "event list" where
  "join_in_flight = [ConnectIntent, FetchSettled 0 (Response True (Some sample_body))]"

text \<open>A live session whose microphone is switched off out of band.\<close>

definition microphone_lost :: "event list" where
  "microphone_lost = live_session @ [LocalAudioChanged 0 (Some False)]"

text \<open>
  A live session hears a transcript and the user hangs up. Then the disconnect runs to
  its end, the user connects again and provisioning succeeds.
\<close>

definition heard_then_hang_up :: "event list" where
  "heard_then_hang_up =
     live_session @
     [AppMessage (transcript_msg (JStr ''hello'') (JStr ''user'')), DisconnectIntent]"

definition finish_and_reconnect :: "event list" where
  "finish_and_reconnect =
     [LeaveSettled 0 True, DestroySettled 0 True, ConnectIntent,
      FetchSettled 1 (Response True (Some sample_body))]"

text \<open>A live session hears a transcript and meets a transport error; the user retries.\<close>

definition heard_then_error :: "event list" where
  "heard_then_error =
     live_session @ [AppMessage (transcript_msg (JStr ''hello'') (JStr ''user'')), TransportError]"

definition retry :: "event list" where
  "retry = [ConnectIntent, FetchSettled 1 (Response True (Some sample_body))]"


section \<open>Properties\<close>

lemmas turn_defs =
  connect_def fetch_resumed_def create_and_join_def connect_catch_def join_resumed_def
  on_joined_meeting_def on_left_meeting_def on_error_def remote_audio_def stop_audio_def
  bind_audio_def on_track_started_def status_switch_def status_part_def transcript_part_def
  on_app_message_def reset_observables_def disconnect_def leave_resumed_def
  destroy_resumed_def toggleMute_def select_character_def awaiting_join_def js_bind_def
  js_or_def createCallObject_def register_and_join_def setLocalAudio_def
  local_audio_changed_def transport_joins_def

lemmas sample_defs =
  init_def sample_body_def remote_track_def live_session_def status_msg_def
  transcript_msg_def hang_up_early_def heard_then_error_def retry_def
  second_connect_fails_def join_in_flight_def microphone_lost_def
  heard_then_hang_up_def finish_and_reconnect_def

lemma run_append: "run (xs @ ys) s = run ys (run xs s)"
  by (induction xs arbitrary: s) simp_all

text \<open>What the transport does at the joined event touches the flag of one call object.\<close>

lemma map_destroyed_update:
  fixes xs :: "call_object list"
  assumes "destroyed y = destroyed (xs ! c)"
  shows "map destroyed (xs[c := y]) = map destroyed xs"
proof (cases "c < length xs")
  case True
  then have "(map destroyed xs)[c := destroyed (xs ! c)] = map destroyed xs"
    by (simp add: list_update_same_conv)
  with assms show ?thesis
    by (simp add: map_update)
next
  case False
  then have "xs[c := y] = xs"
    by (intro list_update_beyond) simp
  then show ?thesis by simp
qed

lemma all_destroyed_cong:
  fixes xs ys :: "call_object list"
  assumes "map destroyed xs = map destroyed ys"
  shows "list_all destroyed xs = list_all destroyed ys"
proof -
  have "list_all destroyed zs = list_all (\<lambda>b. b) (map destroyed zs)"
    for zs :: "call_object list"
    by (simp add: list.pred_map comp_def)
  then show ?thesis
    using assms by simp
qed

lemma all_destroyed_local_audio:
  "list_all destroyed (calls (local_audio_changed c v s)) = list_all destroyed (calls s)"
  by (rule all_destroyed_cong) (simp add: local_audio_changed_def map_destroyed_update)

lemma all_destroyed_transport_joins:
  "list_all destroyed (calls (transport_joins s)) = list_all destroyed (calls s)"
  by (simp add: transport_joins_def Let_def all_destroyed_local_audio)

lemma transport_joins_frame:
  "connectionState (transport_joins s) = connectionState s"
  "agentState (transport_joins s) = agentState s"
  "transcript (transport_joins s) = transcript s"
  "transcriptRole (transport_joins s) = transcriptRole s"
  "callRef (transport_joins s) = callRef s"
  "audioRef (transport_joins s) = audioRef s"
  "audios (transport_joins s) = audios s"
  "effects (transport_joins s) = effects s"
  "length (calls (transport_joins s)) = length (calls s)"
  by (simp_all add: transport_joins_def local_audio_changed_def Let_def)

text \<open>
  Scenario A: from the initial state, connect, a successful provisioning response and
  the joined event give a connected session, an idle agent and an empty transcript.
\<close>

lemma scenario_A:
  "connectionState (run live_session init) = CS_connected \<and>
   agentState (run live_session init) = AS_idle \<and>
   transcript (run live_session init) = JStr []"
  by (simp add: turn_defs sample_defs)

subsection \<open>Disconnect during connect\<close>

text \<open>
  What \<open>disconnect\<close> does with a call object, when nothing else runs between its three
  turns and both promises resolve: the audio element is stopped, \<open>leave\<close> and then
  \<open>destroy\<close> are called on that call object, both refs are cleared, and the observable
  state is idle with an empty transcript.
\<close>

lemma disconnect_uninterrupted:
  "callRef s = Some c \<Longrightarrow>
   (let n = length (disconnects s);
        s' = run [DisconnectIntent, LeaveSettled n True, DestroySettled n True] s
    in connectionState s' = CS_idle \<and> agentState s' = AS_idle \<and>
       transcript s' = JStr [] \<and> callRef s' = None \<and> audioRef s' = None \<and>
       effects s' =
         effects s @
         (case audioRef s of None \<Rightarrow> [] | Some a \<Rightarrow> [AudioPause a, AudioDetach a]) @
         [Leave c, Destroy c])"
  by (auto simp: disconnect_def leave_resumed_def destroy_resumed_def reset_observables_def
      stop_audio_def Let_def split: option.splits)

text \<open>Without a call object it makes no outside call and leaves the connects suspended.\<close>

lemma disconnect_without_call_object:
  "callRef s = None \<Longrightarrow>
   connectionState (step DisconnectIntent s) = CS_idle \<and>
   callRef (step DisconnectIntent s) = None \<and>
   effects (step DisconnectIntent s) =
     effects s @ (case audioRef s of None \<Rightarrow> [] | Some a \<Rightarrow> [AudioPause a, AudioDetach a]) \<and>
   connects (step DisconnectIntent s) = connects s"
  by (auto simp: disconnect_def reset_observables_def stop_audio_def Let_def
      split: option.splits)

text \<open>The sample runs are runs the transport can emit.\<close>

lemma sample_runs_receivable:
  "receivable_run hang_up_early init MS_none"
  "receivable_run (live_session @ [AppMessage (status_msg ''tts''), TransportError]) init MS_none"
  "receivable_run second_connect_fails init MS_none"
  "receivable_run (live_session @ [TrackStarted (remote_track 7), TransportError]) init MS_none"
  "receivable_run join_in_flight init MS_none"
  "receivable_run microphone_lost init MS_none"
  by (simp_all add: receivable_def turn_defs sample_defs)

text \<open>
  C1 on the code, in Scenario F. The disconnect is issued while connecting, with the
  provisioning request in flight: it finds no call object, makes no transport call and
  sets the state to idle. The provisioning response then creates and joins a call
  object, the joined event sets the state to connected, and neither \<open>leave\<close> nor
  \<open>destroy\<close> is ever called: the session stays connected after the user asked to stop.
\<close>

theorem hang_up_early_stays_connected:
  "connectionState (run [ConnectIntent] init) = CS_connecting \<and>
   connectionState (run [ConnectIntent, DisconnectIntent] init) = CS_idle \<and>
   connectionState (run hang_up_early init) = CS_connected \<and>
   callRef (run hang_up_early init) = Some 0 \<and>
   effects (run hang_up_early init) =
     [Fetch ''bugs'', CreateCallObject 0, Join 0 (JStr ''wss://x'') (JStr ''t1'')]"
  by (simp add: turn_defs sample_defs)

subsection \<open>The coupling of agent state and connection state\<close>

lemma step_preserves_I1:
  assumes "I1 s" and "benign e s"
  shows "I1 (step e s)"
proof (cases e)
  case ConnectIntent
  with assms show ?thesis by (auto simp: I1_def connect_def)
next
  case (FetchSettled n r)
  have "agentState (step e s) = agentState s"
    unfolding FetchSettled
    by (simp add: fetch_resumed_def connect_catch_def create_and_join_def
        createCallObject_def register_and_join_def Let_def
        split: fetch_result.splits option.splits sum.splits prod.splits disconnect_task.splits)
  moreover have "connectionState (step e s) = connectionState s \<or>
                 connectionState (step e s) = CS_error"
    unfolding FetchSettled
    by (simp add: fetch_resumed_def connect_catch_def create_and_join_def
        createCallObject_def register_and_join_def Let_def
        split: fetch_result.splits option.splits sum.splits prod.splits disconnect_task.splits)
  ultimately show ?thesis
    using assms by (auto simp: I1_def benign_def error_exit_def)
next
  case (JoinSettled n ok)
  with assms show ?thesis
    by (auto simp: I1_def benign_def error_exit_def join_resumed_def connect_catch_def
        split: if_splits)
next
  case JoinedMeeting
  then show ?thesis using assms by (auto simp: I1_def on_joined_meeting_def)
next
  case LeftMeeting
  then show ?thesis using assms by (auto simp: I1_def on_left_meeting_def)
next
  case TransportError
  then show ?thesis using assms
    by (auto simp: I1_def benign_def error_exit_def on_error_def split: if_splits)
next
  case (TrackStarted ev)
  then show ?thesis using assms
    by (auto simp: I1_def on_track_started_def bind_audio_def stop_audio_def Let_def
        split: option.splits)
next
  case (AppMessage d)
  have conn: "connectionState s = CS_connected"
    using assms(2) by (simp add: benign_def AppMessage)
  have "connectionState (step e s) = connectionState s"
    unfolding AppMessage
    by (auto simp: on_app_message_def status_part_def transcript_part_def js_bind_def
        split: sum.splits if_splits)
  then show ?thesis
    using conn by (simp add: I1_def)
next
  case DisconnectIntent
  then show ?thesis using assms
    by (auto simp: I1_def disconnect_def stop_audio_def reset_observables_def Let_def
        split: option.splits)
next
  case (LeaveSettled n ok)
  then show ?thesis using assms
    by (auto simp: I1_def leave_resumed_def split: option.splits)
next
  case (DestroySettled n ok)
  then show ?thesis using assms
    by (auto simp: I1_def destroy_resumed_def reset_observables_def
        split: disconnect_task.splits)
next
  case ToggleMute
  then show ?thesis using assms
    by (auto simp: I1_def toggleMute_def Let_def split: option.splits)
next
  case (SelectCharacter cid)
  then show ?thesis using assms by (auto simp: I1_def select_character_def)
next
  case (LocalAudioChanged c v)
  then show ?thesis using assms by (auto simp: I1_def local_audio_changed_def)
qed

lemma run_preserves_I1: "I1 s \<Longrightarrow> benign_run es s \<Longrightarrow> I1 (run es s)"
  by (induction es arbitrary: s) (auto intro: step_preserves_I1 simp del: step.simps)

text \<open>
  Whatever the state before, the invariant holds after the joined and the left callback
  and after a disconnect that runs to its end.
\<close>

lemma I1_established:
  "calls s \<noteq> [] \<Longrightarrow> I1 (step JoinedMeeting s) \<and> I1 (step LeftMeeting s)"
  "callRef s = None \<Longrightarrow> I1 (step DisconnectIntent s)"
  "n < length (disconnects s) \<Longrightarrow> disconnects s ! n = AwaitDestroy c \<Longrightarrow>
   I1 (step (DestroySettled n True) s)"
  by (simp_all add: I1_def on_joined_meeting_def on_left_meeting_def disconnect_def
      destroy_resumed_def reset_observables_def stop_audio_def Let_def split: option.splits)

text \<open>
  C2, as the code has it. \<open>AgentState \<noteq> idle\<close> implies \<open>ConnectionState = connected\<close> in
  every state reached from the initial one by events none of which takes the connection
  from connected to error, with app-messages delivered only while connected. The joined
  and left callbacks and the end of \<open>disconnect\<close> set the agent state to idle; the error
  callback and the \<open>catch\<close> block of \<open>connect\<close> set the connection state alone.
\<close>

theorem I1_on_benign_runs: "benign_run es init \<Longrightarrow> I1 (run es init)"
  by (rule run_preserves_I1) (simp_all add: I1_def init_def)

theorem I1_on_benign_runs_witness:
  "benign_run (live_session @ [AppMessage (status_msg ''tts'')]) init \<and>
   agentState (run (live_session @ [AppMessage (status_msg ''tts'')]) init) = AS_speaking \<and>
   I1 (run (live_session @ [AppMessage (status_msg ''tts'')]) init)"
  using I1_on_benign_runs [of "live_session @ [AppMessage (status_msg ''tts'')]"]
  by (simp add: benign_def error_exit_def turn_defs sample_defs)

text \<open>
  A live session is told the agent speaks (Scenario B) and the transport then reports an
  error: the agent state is still speaking, the connection state is error. The same
  state is reached without the error callback, when the \<open>catch\<close> block of a second
  \<open>connect\<close> runs while the session of the first is live.
\<close>

theorem speaking_after_error:
  "agentState (run (live_session @ [AppMessage (status_msg ''tts'')]) init) = AS_speaking \<and>
   connectionState (run (live_session @ [AppMessage (status_msg ''tts'')]) init)
     = CS_connected \<and>
   agentState (run (live_session @ [AppMessage (status_msg ''tts''), TransportError]) init)
     = AS_speaking \<and>
   connectionState (run (live_session @ [AppMessage (status_msg ''tts''), TransportError]) init)
     = CS_error \<and>
   agentState (run second_connect_fails init) = AS_speaking \<and>
   connectionState (run second_connect_fails init) = CS_error"
  by (simp add: turn_defs sample_defs)

subsection \<open>The error callback\<close>

text \<open>
  C3, as the code has it. Once a call object exists, a transport error sets the
  connection state to error and changes nothing else: the audio element stays bound and
  referenced, the call object stays referenced, and no outside call is made.
\<close>

theorem error_sets_state_only:
  "calls s \<noteq> [] \<Longrightarrow>
   step TransportError s = s\<lparr> connectionState := CS_error \<rparr> \<and>
   connectionState (step TransportError s) = CS_error \<and>
   audioRef (step TransportError s) = audioRef s \<and>
   audios (step TransportError s) = audios s \<and>
   callRef (step TransportError s) = callRef s \<and>
   effects (step TransportError s) = effects s"
  by (simp add: on_error_def)

theorem error_sets_state_only_witness:
  "calls (run live_session init) \<noteq> [] \<and>
   connectionState (step TransportError (run live_session init)) = CS_error \<and>
   callRef (step TransportError (run live_session init)) = Some 0"
  using error_sets_state_only [of "run live_session init"]
  by (simp add: turn_defs sample_defs)

text \<open>
  A live session with a remote audio track playing meets a transport error: the sink is
  still referenced and bound to the track, the session is still referenced, and the log
  of outside calls has not grown.
\<close>

theorem error_keeps_sink_and_session:
  "connectionState (run (live_session @ [TrackStarted (remote_track 7), TransportError]) init)
     = CS_error \<and>
   audioRef (run (live_session @ [TrackStarted (remote_track 7), TransportError]) init)
     = Some 0 \<and>
   srcObject
     (audios (run (live_session @ [TrackStarted (remote_track 7), TransportError]) init) ! 0)
     = Some [\<lparr> track_id = 7, kind = ''audio'' \<rparr>] \<and>
   callRef (run (live_session @ [TrackStarted (remote_track 7), TransportError]) init)
     = Some 0 \<and>
   effects (run (live_session @ [TrackStarted (remote_track 7), TransportError]) init)
     = effects (run (live_session @ [TrackStarted (remote_track 7)]) init)"
  by (simp add: turn_defs sample_defs)

subsection \<open>The transcript across sessions\<close>

text \<open>The left callback and both ends of \<open>disconnect\<close> empty the transcript.\<close>

lemma left_clears_transcript:
  "calls s \<noteq> [] \<Longrightarrow>
   connectionState (step LeftMeeting s) = CS_idle \<and> transcript (step LeftMeeting s) = JStr []"
  by (simp add: on_left_meeting_def)

lemma disconnect_clears_transcript:
  "callRef s = None \<Longrightarrow> transcript (step DisconnectIntent s) = JStr []"
  "n < length (disconnects s) \<Longrightarrow> disconnects s ! n = AwaitDestroy c \<Longrightarrow>
   connectionState (step (DestroySettled n True) s) = CS_idle \<and>
   transcript (step (DestroySettled n True) s) = JStr []"
  by (simp_all add: disconnect_def destroy_resumed_def reset_observables_def stop_audio_def
      Let_def split: option.splits)

text \<open>Every turn that takes the connection to idle empties the transcript and its role.\<close>

lemma exit_to_idle_clears:
  assumes "connectionState s \<noteq> CS_idle" and "connectionState (step e s) = CS_idle"
  shows "transcript (step e s) = JStr [] \<and> transcriptRole (step e s) = JStr []"
proof (cases e)
  case (FetchSettled n r)
  with assms show ?thesis
    by (auto simp: fetch_resumed_def connect_catch_def create_and_join_def
        createCallObject_def register_and_join_def js_bind_def
        split: fetch_result.splits option.splits sum.splits prod.splits if_splits)
next
  case (AppMessage d)
  with assms show ?thesis
    by (auto simp: on_app_message_def status_part_def transcript_part_def js_bind_def
        split: sum.splits if_splits)
next
  case (DestroySettled n ok)
  with assms show ?thesis
    by (auto simp: destroy_resumed_def reset_observables_def
        split: disconnect_task.splits if_splits)
qed (use assms in \<open>auto simp: connect_def join_resumed_def connect_catch_def
      on_joined_meeting_def on_left_meeting_def on_error_def on_track_started_def
      bind_audio_def stop_audio_def disconnect_def reset_observables_def leave_resumed_def
      toggleMute_def select_character_def local_audio_changed_def Let_def
      split: option.splits if_splits\<close>)

lemma all_destroyed_toggleMute:
  "list_all destroyed (calls (toggleMute s)) = list_all destroyed (calls s)"
  by (rule all_destroyed_cong)
     (simp add: toggleMute_def setLocalAudio_def Let_def map_destroyed_update
        split: option.splits)

text \<open>Every event the transport can emit keeps the invariant of the transcript.\<close>

lemma transcript_inv_step:
  assumes "transcript_inv s m" and "receivable e m"
  shows "transcript_inv (step e s) (transport_after e s m)"
proof (cases e)
  case ConnectIntent
  with assms show ?thesis by (auto simp: transcript_inv_def connect_def)
next
  case (FetchSettled n r)
  show ?thesis
  proof (cases "length (calls s) < length (calls (step e s))")
    case True
    then have made: "list_all destroyed (calls s)"
      and after: "transcript (step e s) = transcript s"
                 "transcriptRole (step e s) = transcriptRole s"
                 "\<not> list_all destroyed (calls (step e s))"
      unfolding FetchSettled
      by (auto simp: fetch_resumed_def connect_catch_def create_and_join_def
          createCallObject_def register_and_join_def js_bind_def
          split: fetch_result.splits option.splits sum.splits prod.splits if_splits)
    from made assms(1) have "m = MS_none" by (simp add: transcript_inv_def)
    with assms(1) have "transcript s = JStr []" "transcriptRole s = JStr []"
      by (auto simp: transcript_inv_def)
    with after True show ?thesis
      by (simp add: transcript_inv_def FetchSettled)
  next
    case False
    then have "calls (step e s) = calls s \<and> transcript (step e s) = transcript s \<and>
               transcriptRole (step e s) = transcriptRole s"
      unfolding FetchSettled
      by (auto simp: fetch_resumed_def connect_catch_def create_and_join_def
          createCallObject_def register_and_join_def js_bind_def
          split: fetch_result.splits option.splits sum.splits prod.splits if_splits)
    with assms(1) False show ?thesis
      by (simp add: transcript_inv_def FetchSettled)
  qed
next
  case (JoinSettled n ok)
  with assms show ?thesis
    by (auto simp: transcript_inv_def join_resumed_def connect_catch_def)
next
  case JoinedMeeting
  with assms show ?thesis
    by (auto simp: transcript_inv_def receivable_def on_joined_meeting_def
        transport_joins_frame all_destroyed_transport_joins)
next
  case LeftMeeting
  with assms show ?thesis
    by (auto simp: transcript_inv_def receivable_def on_left_meeting_def)
next
  case TransportError
  with assms show ?thesis
    by (auto simp: transcript_inv_def receivable_def on_error_def)
next
  case (TrackStarted ev)
  with assms show ?thesis
    by (auto simp: transcript_inv_def on_track_started_def bind_audio_def stop_audio_def Let_def
        split: option.splits)
next
  case (AppMessage d)
  have "calls (step e s) = calls s"
    unfolding AppMessage
    by (auto simp: on_app_message_def status_part_def transcript_part_def js_bind_def
        split: sum.splits if_splits)
  moreover have "m = MS_joined"
    using assms(2) by (simp add: receivable_def AppMessage)
  ultimately show ?thesis
    using assms(1) by (simp add: transcript_inv_def AppMessage)
next
  case DisconnectIntent
  with assms show ?thesis
    by (auto simp: transcript_inv_def disconnect_def stop_audio_def reset_observables_def Let_def
        split: option.splits)
next
  case (LeaveSettled n ok)
  with assms show ?thesis
    by (auto simp: transcript_inv_def leave_resumed_def split: option.splits)
next
  case (DestroySettled n ok)
  show ?thesis
  proof (cases "n < length (disconnects s)")
    case False
    with assms(1) show ?thesis
      by (auto simp: transcript_inv_def DestroySettled)
  next
    case True
    show ?thesis
    proof (cases "disconnects s ! n")
      case (AwaitDestroy c)
      show ?thesis
      proof (cases ok)
        case True
        then show ?thesis
          by (simp add: transcript_inv_def DestroySettled AwaitDestroy destroy_resumed_def
              reset_observables_def \<open>n < length (disconnects s)\<close>)
      next
        case False
        with assms(1) show ?thesis
          by (auto simp: transcript_inv_def DestroySettled AwaitDestroy destroy_resumed_def
              \<open>n < length (disconnects s)\<close>)
      qed
    qed (use assms(1) True in \<open>auto simp: transcript_inv_def DestroySettled\<close>)
  qed
next
  case ToggleMute
  with assms show ?thesis
    by (simp add: transcript_inv_def all_destroyed_toggleMute)
       (auto simp: toggleMute_def Let_def split: option.splits)
next
  case (SelectCharacter cid)
  with assms show ?thesis by (auto simp: transcript_inv_def select_character_def)
next
  case (LocalAudioChanged c v)
  with assms show ?thesis
    by (simp add: transcript_inv_def all_destroyed_local_audio)
       (auto simp: local_audio_changed_def)
qed

lemma transcript_inv_run:
  "transcript_inv s m \<Longrightarrow> receivable_run es s m \<Longrightarrow>
   transcript_inv (run es s) (transport_run es s m)"
proof (induction es arbitrary: s m)
  case Nil
  then show ?case by simp
next
  case (Cons e es)
  from Cons.prems have "transcript_inv (step e s) (transport_after e s m)"
    by (simp add: transcript_inv_step del: step.simps transport_after.simps)
  moreover from Cons.prems have "receivable_run es (step e s) (transport_after e s m)"
    by (simp del: step.simps transport_after.simps)
  ultimately show ?case
    using Cons.IH by (simp del: step.simps transport_after.simps)
qed

lemma transcript_inv_init: "transcript_inv init MS_none"
  by (simp add: transcript_inv_def init_def)

text \<open>
  A joined event can only come from a call object that is joining, and then nothing is
  held: the transcript and its role are empty when the event arrives.
\<close>

lemma empty_transcript_at_joined:
  assumes "receivable_run es init MS_none"
    and "receivable JoinedMeeting (transport_run es init MS_none)"
  shows "transcript (run es init) = JStr [] \<and> transcriptRole (run es init) = JStr [] \<and>
         calls (run es init) \<noteq> []"
proof -
  have inv: "transcript_inv (run es init) (transport_run es init MS_none)"
    by (rule transcript_inv_run [OF transcript_inv_init assms(1)])
  have m: "transport_run es init MS_none = MS_joining"
    using assms(2) by (simp add: receivable_def)
  from inv m show ?thesis
    by (auto simp: transcript_inv_def)
qed

text \<open>
  The error callback keeps the transcript and the call object. The retry then finds the
  call object undestroyed: \<^verbatim>\<open>createCallObject\<close> throws, the \<open>catch\<close> block sets the state to
  error again, and no joined event can follow.
\<close>

lemma retry_after_error_fails:
  "receivable_run (heard_then_error @ retry) init MS_none \<and>
   connectionState (run heard_then_error init) = CS_error \<and>
   transcript (run heard_then_error init) = JStr ''hello'' \<and>
   connectionState (run (heard_then_error @ retry) init) = CS_error \<and>
   length (calls (run (heard_then_error @ retry) init)) = 1 \<and>
   \<not> receivable JoinedMeeting (transport_run (heard_then_error @ retry) init MS_none)"
  by (simp add: receivable_def turn_defs sample_defs)

text \<open>
  C4. Let the events \<open>es1\<close> lead to a connected state, let the event \<open>e\<close> take the
  connection out of connected, and let the events \<open>es2\<close> follow, all of them events the
  transport can emit, up to a point where it can emit the joined event that begins the
  next transition to connected. Then the transcript and its role are empty at that
  point. When \<open>e\<close> takes the connection to idle (the left event, the end of a
  disconnect) they are empty at once; when it takes it to error they stay until the
  call object is destroyed, which is at the end of a disconnect.
\<close>

theorem transcript_empty_before_next_connected:
  assumes "receivable_run (es1 @ e # es2) init MS_none"
    and "connectionState (run es1 init) = CS_connected"
    and "connectionState (step e (run es1 init)) \<noteq> CS_connected"
    and "receivable JoinedMeeting (transport_run (es1 @ e # es2) init MS_none)"
  shows "transcript (run (es1 @ e # es2) init) = JStr [] \<and>
         transcriptRole (run (es1 @ e # es2) init) = JStr [] \<and>
         (connectionState (step e (run es1 init)) = CS_idle \<longrightarrow>
            transcript (step e (run es1 init)) = JStr [] \<and>
            transcriptRole (step e (run es1 init)) = JStr [])"
proof -
  have "connectionState (run es1 init) \<noteq> CS_idle"
    using assms(2) by simp
  then have "connectionState (step e (run es1 init)) = CS_idle \<longrightarrow>
             transcript (step e (run es1 init)) = JStr [] \<and>
             transcriptRole (step e (run es1 init)) = JStr []"
    using exit_to_idle_clears [of "run es1 init" e] by blast
  with empty_transcript_at_joined [OF assms(1) assms(4)] show ?thesis
    by blast
qed

text \<open>
  The user hangs up on a session that has heard \<open>hello\<close>; the connection leaves
  connected by the left event in the one run and by a transport error in the other; the
  disconnect runs to its end and the user connects again.
\<close>

theorem transcript_empty_before_next_connected_witness:
  "receivable_run (heard_then_hang_up @ LeftMeeting # finish_and_reconnect) init MS_none \<and>
   transcript (run heard_then_hang_up init) = JStr ''hello'' \<and>
   connectionState (run heard_then_hang_up init) = CS_connected \<and>
   connectionState (step LeftMeeting (run heard_then_hang_up init)) = CS_idle \<and>
   transcript (step LeftMeeting (run heard_then_hang_up init)) = JStr [] \<and>
   receivable JoinedMeeting
     (transport_run (heard_then_hang_up @ LeftMeeting # finish_and_reconnect) init MS_none) \<and>
   transcript (run (heard_then_hang_up @ LeftMeeting # finish_and_reconnect) init) = JStr [] \<and>
   receivable_run (heard_then_hang_up @ TransportError # finish_and_reconnect) init MS_none \<and>
   connectionState (step TransportError (run heard_then_hang_up init)) = CS_error \<and>
   transcript (step TransportError (run heard_then_hang_up init)) = JStr ''hello'' \<and>
   receivable JoinedMeeting
     (transport_run (heard_then_hang_up @ TransportError # finish_and_reconnect) init MS_none) \<and>
   transcript (run (heard_then_hang_up @ TransportError # finish_and_reconnect) init) = JStr []"
  using
    transcript_empty_before_next_connected
      [of heard_then_hang_up LeftMeeting finish_and_reconnect]
    transcript_empty_before_next_connected
      [of heard_then_hang_up TransportError finish_and_reconnect]
  by (simp add: receivable_def turn_defs sample_defs)

subsection \<open>The joined callback\<close>



subsection \<open>The app-message callback as a decoder\<close>

lemma status_switch_lookup:
  "status_switch (case map_of kvs k of None \<Rightarrow> JUndefined | Some v \<Rightarrow> v) =
   fixed_lookup (map_of kvs k)"
  by (auto simp: status_switch_def fixed_lookup_def split: option.splits jsval.splits)

lemma status_part_obj:
  "status_part (JObj kvs) s =
     Inr (if map_of kvs ''type'' = Some (JStr ''status'')
          then s\<lparr> agentState := fixed_lookup (map_of kvs ''status'') \<rparr> else s)"
  by (auto simp: status_part_def js_bind_def status_switch_lookup split: option.splits)

lemma transcript_part_obj:
  "transcript_part (JObj kvs) s =
     Inr (if map_of kvs ''type'' = Some (JStr ''transcript'')
          then (case map_of kvs ''text'' of
                  None \<Rightarrow> s
                | Some tx \<Rightarrow>
                    if truthy tx
                    then s\<lparr> transcript := tx,
                            transcriptRole :=
                              (case map_of kvs ''role'' of
                                 None \<Rightarrow> JStr ''assistant''
                               | Some r \<Rightarrow> if truthy r then r else JStr ''assistant'') \<rparr>
                    else s)
          else s)"
  by (auto simp: transcript_part_def js_bind_def js_or_def split: option.splits)

lemma decoder_truthy_obj:
  "decoder_truthy (JObj kvs) =
     (if map_of kvs ''type'' = Some (JStr ''status'')
      then Some (StatusEvent (fixed_lookup (map_of kvs ''status'')))
      else if map_of kvs ''type'' = Some (JStr ''transcript'')
      then (case map_of kvs ''text'' of
              None \<Rightarrow> None
            | Some tx \<Rightarrow>
                if truthy tx
                then Some (TranscriptEvent tx
                             (case map_of kvs ''role'' of
                                None \<Rightarrow> JStr ''assistant''
                              | Some r \<Rightarrow> if truthy r then r else JStr ''assistant''))
                else None)
      else None)"
  by (auto simp: decoder_truthy_def split: option.splits jsval.splits)

lemma app_message_decoder_truthy:
  "on_app_message payload s = Inr (deliver (decoder_truthy payload) s)"
proof (cases payload)
  case (JObj kvs)
  show ?thesis
    unfolding JObj on_app_message_def
    by (simp add: status_part_obj transcript_part_obj decoder_truthy_obj js_bind_def deliver_def
        split: option.splits)
qed (simp_all add: on_app_message_def status_part_def transcript_part_def js_bind_def
      decoder_truthy_def deliver_def)

lemma decoders_agree: "well_shaped payload \<Longrightarrow> decoder_truthy payload = decoder_spec payload"
proof (cases payload)
  case (JObj kvs)
  assume "well_shaped payload"
  then have text_ok: "map_of kvs ''text'' = Some tx \<Longrightarrow> (\<exists>x. tx = JStr x) \<or> \<not> truthy tx"
    and role_ok: "map_of kvs ''role'' = Some r \<Longrightarrow> truthy r" for tx r
    by (auto simp: well_shaped_def JObj split: jsval.splits)
  show ?thesis
  proof (cases "map_of kvs ''text''")
    case None
    then show ?thesis
      by (simp add: JObj decoder_truthy_def decoder_spec_def split: option.splits jsval.splits)
  next
    case (Some tx)
    from text_ok [OF Some] show ?thesis
    proof
      assume "\<exists>x. tx = JStr x"
      then obtain x where "tx = JStr x" ..
      with Some role_ok show ?thesis
        by (auto simp: JObj decoder_truthy_def decoder_spec_def
            split: option.splits jsval.splits)
    next
      assume "\<not> truthy tx"
      with Some show ?thesis
        by (cases tx)
           (simp_all add: JObj decoder_truthy_def decoder_spec_def
              split: option.splits jsval.splits)
    qed
  qed
qed (simp_all add: decoder_truthy_def decoder_spec_def)

text \<open>
  C6, as the code has it. For every payload and every state the app-message callback
  returns without raising, and the state it returns is the one the decoder that tests
  truthiness delivers: a status message maps its \<open>status\<close> through the fixed lookup
  (anything else, or nothing, is idle); a transcript message with a truthy \<open>text\<close>
  replaces the transcript with that value and the role with the role given when that is
  truthy, with \<open>assistant\<close> otherwise; every other payload changes nothing. On the
  payloads whose \<open>text\<close> is absent, a string or falsy and whose \<open>role\<close> is absent or truthy,
  this is the reference decoder.
\<close>

theorem app_message_decodes:
  "on_app_message payload s = Inr (deliver (decoder_truthy payload) s) \<and>
   (well_shaped payload \<longrightarrow> on_app_message payload s = Inr (deliver (decoder_spec payload) s))"
  by (simp add: app_message_decoder_truthy decoders_agree)

text \<open>Scenarios B, C and D, and a transcript message without a role.\<close>

theorem app_message_decodes_witness:
  "well_shaped (transcript_msg (JStr ''hello'') (JStr ''user'')) \<and>
   on_app_message (transcript_msg (JStr ''hello'') (JStr ''user'')) init
     = Inr (init\<lparr> transcript := JStr ''hello'', transcriptRole := JStr ''user'' \<rparr>) \<and>
   well_shaped (status_msg ''tts'') \<and>
   on_app_message (status_msg ''tts'') init = Inr (init\<lparr> agentState := AS_speaking \<rparr>) \<and>
   well_shaped (status_msg ''unknown_value'') \<and>
   on_app_message (status_msg ''unknown_value'') init = Inr (init\<lparr> agentState := AS_idle \<rparr>) \<and>
   well_shaped (JObj [(''type'', JStr ''transcript''), (''text'', JStr ''hi'')]) \<and>
   on_app_message (JObj [(''type'', JStr ''transcript''), (''text'', JStr ''hi'')]) init
     = Inr (init\<lparr> transcript := JStr ''hi'', transcriptRole := JStr ''assistant'' \<rparr>)"
  using
    app_message_decodes [of "transcript_msg (JStr ''hello'') (JStr ''user'')" init]
    app_message_decodes [of "status_msg ''tts''" init]
    app_message_decodes [of "status_msg ''unknown_value''" init]
    app_message_decodes [of "JObj [(''type'', JStr ''transcript''), (''text'', JStr ''hi'')]" init]
  by (simp add: well_shaped_def decoder_spec_def decoder_truthy_def fixed_lookup_def
      deliver_def status_msg_def transcript_msg_def)

text \<open>
  A transcript message with the empty string as its role: the callback stores the role
  \<open>assistant\<close>, the reference decoder the role given. A transcript message whose \<open>text\<close>
  is the number 5: the callback stores it, the reference decoder ignores the message.
\<close>

theorem decoder_spec_differs:
  "on_app_message (transcript_msg (JStr ''hi'') (JStr [])) init
     = Inr (init\<lparr> transcript := JStr ''hi'', transcriptRole := JStr ''assistant'' \<rparr>) \<and>
   deliver (decoder_spec (transcript_msg (JStr ''hi'') (JStr []))) init
     = init\<lparr> transcript := JStr ''hi'', transcriptRole := JStr [] \<rparr> \<and>
   on_app_message (transcript_msg (JNum 5) (JStr ''user'')) init
     = Inr (init\<lparr> transcript := JNum 5, transcriptRole := JStr ''user'' \<rparr>) \<and>
   deliver (decoder_spec (transcript_msg (JNum 5) (JStr ''user''))) init = init"
  by (simp add: on_app_message_def status_part_def transcript_part_def js_bind_def js_or_def
      decoder_spec_def deliver_def transcript_msg_def)

subsection \<open>The audio sink\<close>

lemma length_audios_stop_audio: "length (audios (stop_audio s)) = length (audios s)"
  by (simp add: stop_audio_def split: option.splits)

lemma stop_audio_detaches:
  assumes "sink_inv s" and "i < length (audios s)"
  shows "srcObject (audios (stop_audio s) ! i) = None"
proof (cases "audioRef s")
  case None
  with assms show ?thesis by (simp add: stop_audio_def sink_inv_def)
next
  case (Some a)
  with assms show ?thesis
    by (cases "i = a") (simp_all add: stop_audio_def sink_inv_def)
qed

lemma audios_bind_audio:
  "audios (bind_audio t s) =
     audios (stop_audio s) @ [\<lparr> paused = False, srcObject = Some [t], autoplay = True \<rparr>]"
  by (simp add: bind_audio_def Let_def)

lemma audioRef_bind_audio: "audioRef (bind_audio t s) = Some (length (audios s))"
  by (simp add: bind_audio_def Let_def length_audios_stop_audio)

lemma alive_sinks_bind_audio:
  assumes "sink_inv s"
  shows "alive_sinks (bind_audio t s) = [length (audios s)]"
proof -
  have "filter (\<lambda>i. srcObject ((audios (stop_audio s) @ [x]) ! i) \<noteq> None)
          [0..<length (audios s)] = []" for x
    using assms
    by (auto simp: filter_empty_conv nth_append length_audios_stop_audio stop_audio_detaches)
  then show ?thesis
    by (simp add: alive_sinks_def audios_bind_audio length_audios_stop_audio nth_append)
qed

lemma sink_inv_bind_audio:
  assumes "sink_inv s"
  shows "sink_inv (bind_audio t s)"
  unfolding sink_inv_def audioRef_bind_audio audios_bind_audio
  using assms
  by (auto simp: nth_append length_audios_stop_audio stop_audio_detaches less_Suc_eq)

lemma sink_inv_forget:
  assumes "sink_inv s"
  shows "sink_inv ((stop_audio s)\<lparr> audioRef := None \<rparr>)"
proof -
  have "audios ((stop_audio s)\<lparr> audioRef := None \<rparr>) = audios (stop_audio s)"
    by simp
  then show ?thesis
    using assms by (simp add: sink_inv_def length_audios_stop_audio stop_audio_detaches)
qed

lemma sink_inv_cong:
  "sink_inv s \<Longrightarrow> audios s' = audios s \<Longrightarrow> audioRef s' = audioRef s \<Longrightarrow> sink_inv s'"
  by (simp add: sink_inv_def)

lemma sink_inv_disconnect: "sink_inv s \<Longrightarrow> sink_inv (disconnect s)"
  by (rule sink_inv_cong [OF sink_inv_forget [of s]])
     (simp_all add: disconnect_def reset_observables_def Let_def split: option.splits)

lemma sink_inv_track_started: "sink_inv s \<Longrightarrow> sink_inv (on_track_started ev s)"
  by (simp add: on_track_started_def sink_inv_bind_audio split: option.splits)

lemma audio_untouched:
  "audios (connect s) = audios s \<and> audioRef (connect s) = audioRef s"
  "audios (fetch_resumed n r s) = audios s \<and> audioRef (fetch_resumed n r s) = audioRef s"
  "audios (join_resumed n ok s) = audios s \<and> audioRef (join_resumed n ok s) = audioRef s"
  "audios (on_joined_meeting s) = audios s \<and> audioRef (on_joined_meeting s) = audioRef s"
  "audios (transport_joins s) = audios s \<and> audioRef (transport_joins s) = audioRef s"
  "audios (on_left_meeting s) = audios s \<and> audioRef (on_left_meeting s) = audioRef s"
  "audios (on_error s) = audios s \<and> audioRef (on_error s) = audioRef s"
  "audios (leave_resumed n ok s) = audios s \<and> audioRef (leave_resumed n ok s) = audioRef s"
  "audios (destroy_resumed n c ok s) = audios s \<and>
   audioRef (destroy_resumed n c ok s) = audioRef s"
  "audios (local_audio_changed c v s) = audios s \<and>
   audioRef (local_audio_changed c v s) = audioRef s"
  "audios (toggleMute s) = audios s \<and> audioRef (toggleMute s) = audioRef s"
  "audios (select_character cid s) = audios s \<and> audioRef (select_character cid s) = audioRef s"
  by (simp_all add: connect_def fetch_resumed_def connect_catch_def create_and_join_def
      createCallObject_def register_and_join_def local_audio_changed_def join_resumed_def
      transport_joins_def
      on_joined_meeting_def on_left_meeting_def on_error_def leave_resumed_def
      destroy_resumed_def reset_observables_def toggleMute_def select_character_def Let_def
      split: fetch_result.splits option.splits sum.splits prod.splits disconnect_task.splits)

lemma app_message_untouched:
  "on_app_message d s = Inr s' \<Longrightarrow> audios s' = audios s \<and> audioRef s' = audioRef s"
  by (auto simp: on_app_message_def status_part_def transcript_part_def js_bind_def
      split: sum.splits if_splits)

lemma sink_inv_step: "sink_inv s \<Longrightarrow> sink_inv (step e s)"
proof (cases e)
  case (AppMessage d)
  assume "sink_inv s"
  then show ?thesis
    unfolding AppMessage
    by (auto split: sum.splits dest: app_message_untouched intro: sink_inv_cong)
next
  case (DestroySettled n ok)
  assume "sink_inv s"
  then show ?thesis
    unfolding DestroySettled
    by (auto simp: audio_untouched split: disconnect_task.splits intro: sink_inv_cong)
qed (auto simp: sink_inv_disconnect sink_inv_track_started audio_untouched
       intro: sink_inv_cong)

lemma sink_inv_run: "sink_inv s \<Longrightarrow> sink_inv (run es s)"
  by (induction es arbitrary: s) (simp_all add: sink_inv_step del: step.simps)

lemma sink_inv_init: "sink_inv init"
  by (simp add: sink_inv_def init_def)

text \<open>I2: with the invariant, the bound audio elements are at most the one referenced.\<close>

lemma at_most_one_sink:
  assumes "sink_inv s"
  shows "length (alive_sinks s) \<le> 1"
proof -
  have "set (alive_sinks s) \<subseteq> (case audioRef s of None \<Rightarrow> {} | Some a \<Rightarrow> {a})"
    using assms by (auto simp: alive_sinks_def sink_inv_def split: option.splits)
  moreover have "finite (case audioRef s of None \<Rightarrow> {} | Some a \<Rightarrow> {a})"
    by (simp split: option.splits)
  ultimately have "card (set (alive_sinks s)) \<le>
                   card (case audioRef s of None \<Rightarrow> {} | Some a \<Rightarrow> {a})"
    by (rule card_mono [rotated])
  also have "\<dots> \<le> 1"
    by (simp split: option.splits)
  finally have "card (set (alive_sinks s)) \<le> 1" .
  moreover have "distinct (alive_sinks s)"
    by (simp add: alive_sinks_def)
  ultimately show ?thesis
    by (simp add: distinct_card)
qed

lemma calls_grow_step: "length (calls s) \<le> length (calls (step e s))"
proof (cases e)
  case (AppMessage d)
  show ?thesis
    unfolding AppMessage
    by (auto simp: on_app_message_def status_part_def transcript_part_def js_bind_def
        split: sum.splits if_splits)
qed (auto simp: connect_def fetch_resumed_def connect_catch_def create_and_join_def
      createCallObject_def register_and_join_def local_audio_changed_def join_resumed_def
      transport_joins_def
      on_joined_meeting_def on_left_meeting_def on_error_def leave_resumed_def
      destroy_resumed_def reset_observables_def toggleMute_def select_character_def Let_def
      on_track_started_def bind_audio_def stop_audio_def disconnect_def
      split: fetch_result.splits option.splits sum.splits prod.splits disconnect_task.splits)

lemma calls_grow_run: "length (calls s) \<le> length (calls (run es s))"
proof (induction es arbitrary: s)
  case Nil
  show ?case by simp
next
  case (Cons e es)
  have "length (calls s) \<le> length (calls (step e s))" by (rule calls_grow_step)
  also have "\<dots> \<le> length (calls (run es (step e s)))" by (rule Cons.IH)
  finally show ?case by simp
qed

lemma calls_nonempty_run: "calls s \<noteq> [] \<Longrightarrow> calls (run es s) \<noteq> []"
  using calls_grow_run [of s es] by (cases "calls s") auto

lemma track_started_binds:
  assumes "calls s \<noteq> []" and "remote_audio ev"
  shows "\<exists>t. track ev = Some t \<and> step (TrackStarted ev) s = bind_audio t s"
  using assms by (cases "track ev") (simp_all add: on_track_started_def remote_audio_def)

lemma at_most_one_sink_run: "length (alive_sinks (run es init)) \<le> 1"
  by (rule at_most_one_sink [OF sink_inv_run [OF sink_inv_init]])

text \<open>
  C7. Let any events \<open>es\<close> have led to a state where the callbacks are registered, and
  let one or more track-started events follow, each for an audio track of a participant
  that is not local. Then exactly one audio element is bound, it is the one \<open>audioRef\<close>
  holds, and its stream is the track of the last event. And when \<open>audioRef\<close> holds an
  element as the first of these events arrives, that element is paused and detached
  before the new one is constructed and played, and is paused and detached afterwards.
\<close>

theorem single_sink:
  assumes "calls (run es init) \<noteq> []" and "tes \<noteq> []" and "\<forall>ev \<in> set tes. remote_audio ev"
  shows "(case audioRef (run (es @ map TrackStarted tes) init) of
            None \<Rightarrow> False
          | Some a \<Rightarrow>
              alive_sinks (run (es @ map TrackStarted tes) init) = [a] \<and>
              (case track (last tes) of
                 None \<Rightarrow> False
               | Some t \<Rightarrow>
                   srcObject (audios (run (es @ map TrackStarted tes) init) ! a) = Some [t])) \<and>
         (\<forall>a. audioRef (run es init) = Some a \<longrightarrow>
            effects (step (TrackStarted (hd tes)) (run es init)) =
              effects (run es init) @
                [AudioPause a, AudioDetach a,
                 AudioNew (length (audios (run es init))),
                 AudioPlay (length (audios (run es init)))] \<and>
            paused (audios (step (TrackStarted (hd tes)) (run es init)) ! a) \<and>
            srcObject (audios (step (TrackStarted (hd tes)) (run es init)) ! a) = None)"
proof
  obtain tes' ev where tes: "tes = tes' @ [ev]"
    using assms(2) by (cases tes rule: rev_cases) auto
  define s0 where "s0 = run (es @ map TrackStarted tes') init"
  have inv: "sink_inv s0"
    unfolding s0_def by (rule sink_inv_run [OF sink_inv_init])
  have "calls s0 \<noteq> []"
    unfolding s0_def run_append by (rule calls_nonempty_run [OF assms(1)])
  moreover have "remote_audio ev"
    using assms(3) tes by simp
  ultimately obtain t where t: "track ev = Some t" "step (TrackStarted ev) s0 = bind_audio t s0"
    using track_started_binds by blast
  have "run (es @ map TrackStarted tes) init = step (TrackStarted ev) s0"
    by (simp add: tes s0_def run_append del: step.simps)
  then have final: "run (es @ map TrackStarted tes) init = bind_audio t s0"
    by (simp only: t(2))
  show "case audioRef (run (es @ map TrackStarted tes) init) of
            None \<Rightarrow> False
          | Some a \<Rightarrow>
              alive_sinks (run (es @ map TrackStarted tes) init) = [a] \<and>
              (case track (last tes) of
                 None \<Rightarrow> False
               | Some t \<Rightarrow>
                   srcObject (audios (run (es @ map TrackStarted tes) init) ! a) = Some [t])"
    unfolding final
    by (simp add: audioRef_bind_audio alive_sinks_bind_audio [OF inv] tes t(1)
        audios_bind_audio length_audios_stop_audio nth_append)
next
  define s where "s = run es init"
  have inv: "sink_inv s"
    unfolding s_def by (rule sink_inv_run [OF sink_inv_init])
  have "remote_audio (hd tes)"
    using assms(2,3) by (cases tes) simp_all
  then obtain t where t: "step (TrackStarted (hd tes)) s = bind_audio t s"
    using track_started_binds [of s "hd tes"] assms(1) s_def by blast
  have "effects (bind_audio t s) =
          effects s @ [AudioPause a, AudioDetach a, AudioNew (length (audios s)),
                       AudioPlay (length (audios s))] \<and>
        paused (audios (bind_audio t s) ! a) \<and> srcObject (audios (bind_audio t s) ! a) = None"
    if "audioRef s = Some a" for a
  proof -
    have a: "a < length (audios s)"
      using inv that by (simp add: sink_inv_def)
    show ?thesis
      using a that
      by (simp add: bind_audio_def stop_audio_def Let_def nth_append)
  qed
  then show "\<forall>a. audioRef (run es init) = Some a \<longrightarrow>
            effects (step (TrackStarted (hd tes)) (run es init)) =
              effects (run es init) @
                [AudioPause a, AudioDetach a,
                 AudioNew (length (audios (run es init))),
                 AudioPlay (length (audios (run es init)))] \<and>
            paused (audios (step (TrackStarted (hd tes)) (run es init)) ! a) \<and>
            srcObject (audios (step (TrackStarted (hd tes)) (run es init)) ! a) = None"
    unfolding s_def [symmetric] t by blast
qed

text \<open>
  Three remote audio tracks in a live session: the third element is the one bound, to
  the third track. The second track arriving while the first plays: the first element
  is paused and detached, then the second is made and played.
\<close>

theorem single_sink_witness:
  "calls (run live_session init) \<noteq> [] \<and>
   audioRef (run (live_session @ [TrackStarted (remote_track 7)]) init) = Some 0 \<and>
   audioRef
     (run (live_session @ map TrackStarted [remote_track 7, remote_track 8, remote_track 9])
        init) = Some 2 \<and>
   alive_sinks
     (run (live_session @ map TrackStarted [remote_track 7, remote_track 8, remote_track 9])
        init) = [2] \<and>
   srcObject
     (audios
        (run (live_session @ map TrackStarted [remote_track 7, remote_track 8, remote_track 9])
           init) ! 2)
     = Some [\<lparr> track_id = 9, kind = ''audio'' \<rparr>] \<and>
   effects
     (step (TrackStarted (remote_track 8))
        (run (live_session @ [TrackStarted (remote_track 7)]) init))
     = effects (run (live_session @ [TrackStarted (remote_track 7)]) init) @
         [AudioPause 0, AudioDetach 0, AudioNew 1, AudioPlay 1]"
  using single_sink [of "live_session" "[remote_track 7, remote_track 8, remote_track 9]"]
    single_sink [of "live_session @ [TrackStarted (remote_track 7)]" "[remote_track 8]"]
  by (simp add: turn_defs sample_defs alive_sinks_def)

subsection \<open>connect is guarded\<close>

text \<open>
  C8. A connect intent while \<open>ConnectionState\<close> is connecting or connected changes
  nothing: the state after the intent is the state before it, and with it the log of
  outside calls (no provisioning request) and the store of call objects (no second
  session).
\<close>

theorem connect_idempotent:
  "connectionState s = CS_connecting \<or> connectionState s = CS_connected \<Longrightarrow>
   step ConnectIntent s = s \<and> effects (step ConnectIntent s) = effects s \<and>
   calls (step ConnectIntent s) = calls s"
  by (auto simp: connect_def)

theorem connect_idempotent_witness:
  "connectionState (step ConnectIntent init) = CS_connecting \<and>
   step ConnectIntent (step ConnectIntent init) = step ConnectIntent init \<and>
   effects (step ConnectIntent (step ConnectIntent init)) = [Fetch ''bugs''] \<and>
   connectionState (run live_session init) = CS_connected \<and>
   step ConnectIntent (run live_session init) = run live_session init"
  using connect_idempotent [of "step ConnectIntent init"]
    connect_idempotent [of "run live_session init"]
  by (simp add: turn_defs sample_defs)

subsection \<open>toggleMute\<close>

text \<open>In every state reached from the initial one, \<open>callRef\<close> holds a call object that exists.\<close>

lemma callRef_valid_step:
  assumes "\<forall>c. callRef s = Some c \<longrightarrow> c < length (calls s)"
  shows "\<forall>c. callRef (step e s) = Some c \<longrightarrow> c < length (calls (step e s))"
proof (cases e)
  case (AppMessage d)
  show ?thesis
    using assms unfolding AppMessage
    by (auto simp: on_app_message_def status_part_def transcript_part_def js_bind_def
        split: sum.splits if_splits)
qed (use assms in \<open>auto simp: connect_def fetch_resumed_def connect_catch_def create_and_join_def
      createCallObject_def register_and_join_def local_audio_changed_def join_resumed_def
      transport_joins_def
      on_joined_meeting_def on_left_meeting_def on_error_def leave_resumed_def
      destroy_resumed_def reset_observables_def toggleMute_def select_character_def Let_def
      on_track_started_def bind_audio_def stop_audio_def disconnect_def
      split: fetch_result.splits option.splits sum.splits prod.splits disconnect_task.splits\<close>)

lemma callRef_valid_run:
  "callRef (run es init) = Some c \<Longrightarrow> c < length (calls (run es init))"
proof -
  have "\<forall>c. callRef (run es s) = Some c \<longrightarrow> c < length (calls (run es s))"
    if "\<forall>c. callRef s = Some c \<longrightarrow> c < length (calls s)" for s
    using that
  proof (induction es arbitrary: s)
    case Nil
    then show ?case by simp
  next
    case (Cons e es)
    show ?case
      using Cons.IH [OF callRef_valid_step [OF Cons.prems]] by simp
  qed
  from this [of init] show "callRef (run es init) = Some c \<Longrightarrow> c < length (calls (run es init))"
    by (simp add: init_def)
qed

text \<open>
  C9, as the code has it. With a session (\<open>callRef\<close> holds a call object), \<open>toggleMute\<close>
  passes to \<^verbatim>\<open>setLocalAudio\<close> whether the transport's answer is \<^verbatim>\<open>false\<close>, and \<open>isMuted\<close>
  becomes the negation of the flag passed. When the transport answers with a flag, the
  new flag is its negation and \<open>isMuted\<close> the negation of the new flag. When it answers
  \<^verbatim>\<open>null\<close>, as before the call object has joined, the flag passed is \<^verbatim>\<open>false\<close>, the
  answer stays \<^verbatim>\<open>null\<close> and \<open>isMuted\<close> is true. The cached \<open>isMuted\<close> plays no part. The
  call object \<open>callRef\<close> holds exists in every state the component reaches, by the lemma
  above.
\<close>

theorem toggleMute_reads_transport:
  assumes "callRef s = Some c" and "c < length (calls s)"
  shows "effects (toggleMute s) =
           effects s @ [SetLocalAudio c (localAudio (calls s ! c) = Some False)] \<and>
         isMuted (toggleMute s) = (localAudio (calls s ! c) \<noteq> Some False) \<and>
         (case localAudio (calls s ! c) of
            Some b \<Rightarrow>
              localAudio (calls (toggleMute s) ! c) = Some (\<not> b) \<and>
              isMuted (toggleMute s) = b
          | None \<Rightarrow>
              localAudio (calls (toggleMute s) ! c) = None \<and>
              isMuted (toggleMute s)) \<and>
         toggleMute (s\<lparr> isMuted := b' \<rparr>) = toggleMute s"
  using assms by (auto simp: toggleMute_def setLocalAudio_def Let_def split: option.splits)

text \<open>
  A live session: the first toggle mutes, the second unmutes. A live session whose
  microphone was switched off out of band, with \<open>isMuted\<close> still false: the toggle
  switches it on and \<open>isMuted\<close> stays false.
\<close>

theorem toggleMute_reads_transport_witness:
  "callRef (run live_session init) = Some 0 \<and>
   localAudio (calls (run live_session init) ! 0) = Some True \<and>
   effects (toggleMute (run live_session init)) =
     effects (run live_session init) @ [SetLocalAudio 0 False] \<and>
   localAudio (calls (toggleMute (run live_session init)) ! 0) = Some False \<and>
   isMuted (toggleMute (run live_session init)) \<and>
   effects (toggleMute (toggleMute (run live_session init))) =
     effects (run live_session init) @ [SetLocalAudio 0 False, SetLocalAudio 0 True] \<and>
   \<not> isMuted (toggleMute (toggleMute (run live_session init))) \<and>
   callRef (run microphone_lost init) = Some 0 \<and>
   \<not> isMuted (run microphone_lost init) \<and>
   localAudio (calls (run microphone_lost init) ! 0) = Some False \<and>
   localAudio (calls (toggleMute (run microphone_lost init)) ! 0) = Some True \<and>
   \<not> isMuted (toggleMute (run microphone_lost init))"
  using toggleMute_reads_transport [of "run live_session init" 0 True]
    toggleMute_reads_transport [of "toggleMute (run live_session init)" 0 True]
    toggleMute_reads_transport [of "run microphone_lost init" 0 True]
  by (simp add: turn_defs sample_defs)

text \<open>
  While the join is in flight the session exists and the transport answers \<^verbatim>\<open>null\<close>,
  whose negation is true. The flag passed is \<^verbatim>\<open>false\<close>, and \<^verbatim>\<open>false\<close> again on the second
  toggle.
\<close>

theorem toggleMute_before_joined:
  "callRef (run join_in_flight init) = Some 0 \<and>
   localAudio (calls (run join_in_flight init) ! 0) = None \<and>
   js_not (localAudio (calls (run join_in_flight init) ! 0)) \<and>
   effects (toggleMute (run join_in_flight init)) =
     effects (run join_in_flight init) @ [SetLocalAudio 0 False] \<and>
   effects (toggleMute (toggleMute (run join_in_flight init))) =
     effects (run join_in_flight init) @ [SetLocalAudio 0 False, SetLocalAudio 0 False] \<and>
   isMuted (toggleMute (toggleMute (run join_in_flight init)))"
  by (simp add: js_not_def turn_defs sample_defs)

text \<open>
  C10. Without a session (\<open>callRef\<close> is null), \<open>toggleMute\<close> is a silent no-op: the state,
  \<open>isMuted\<close> and the log of outside calls included, is unchanged.
\<close>

theorem toggleMute_without_session:
  "callRef s = None \<Longrightarrow> step ToggleMute s = s"
  by (simp add: toggleMute_def)

theorem toggleMute_without_session_witness:
  "callRef init = None \<and> step ToggleMute init = init"
  using toggleMute_without_session [of init] by (simp add: init_def)

end
